theory Spec2Isabelle
  imports Main "HOL-Library.Word" "HOL-Library.Signed_Division"
begin

unbundle bit_operations_syntax

section \<open>Counting processor cores: \<open>programs/util.c\<close>\<close>

text \<open>
  \<open>util.c\<close> holds one operation, \<open>UTIL_countCores\<close>, compiled from one of six
  bodies chosen by the preprocessor. Each body but the last keeps its result in a
  function-local \<open>static\<close> variable \<open>numCores\<close>, initially 0. The embedding gives
  one HOL function per body. Every function takes what the operating system answers
  (a record) and the value of the static variable at the call, and returns an
  \<open>outcome\<close>: the value returned together with the static variable after the call, or
  the termination of the process.
\<close>

subsection \<open>Machine types and outcomes\<close>

type_synonym c_int = "32 word"
type_synonym c_long = "64 word"
type_synonym DWORD = "32 word"
type_synonym ULONG_PTR = "64 word"

text \<open>
  \<open>int\<close>, \<open>S32\<close> and \<open>DWORD\<close> are 32-bit words (\<open>sint\<close> reads the signed ones);
  \<open>long\<close> and \<open>ULONG_PTR\<close> are the 64-bit words of the LP64 and Win64 ABIs.
  \<open>Return v c\<close>: the call returns \<open>v\<close> and leaves \<open>c\<close> in the static variable.
  \<open>Exit s m\<close>: \<open>perror(m); exit(s)\<close>. \<open>Fault\<close>: the walk dereferences \<open>ptr\<close>
  outside the entries the buffer holds.
\<close>

datatype outcome = Return (retval: c_int) (cached: c_int) | Exit c_int string | Fault

subsection \<open>Windows\<close>

function CountSetBits_loop ::
  "nat \<Rightarrow> ULONG_PTR \<Rightarrow> ULONG_PTR \<Rightarrow> DWORD \<Rightarrow> nat \<Rightarrow> DWORD" where
  "CountSetBits_loop LSHIFT bitMask bitTest bitSetCount i =
     (if i \<le> LSHIFT
      then CountSetBits_loop LSHIFT bitMask (bitTest div 2)
             (bitSetCount + (if bitMask AND bitTest \<noteq> 0 then 1 else 0)) (i + 1)
      else bitSetCount)"
  by pat_completeness auto
termination
  by (relation "measure (\<lambda>(LSHIFT, bitMask, bitTest, bitSetCount, i). LSHIFT + 1 - i)") auto

declare CountSetBits_loop.simps [simp del]

text \<open>
  \<open>LSHIFT\<close> and the counter \<open>i\<close> are \<open>DWORD\<close>s in the source; they stay at most 64,
  so they are naturals here.
\<close>

definition CountSetBits :: "ULONG_PTR \<Rightarrow> DWORD" where
  "CountSetBits bitMask =
     (let LSHIFT = 8 * 8 - 1;
          bitSetCount = 0;
          bitTest = push_bit LSHIFT 1
      in CountSetBits_loop LSHIFT bitMask bitTest bitSetCount 0)"

text \<open>The population count of a mask, to compare \<open>CountSetBits\<close> with.\<close>

definition popcount :: "ULONG_PTR \<Rightarrow> nat" where
  "popcount w = length (filter (bit w) [0..<64])"

datatype LOGICAL_PROCESSOR_RELATIONSHIP =
  RelationProcessorCore | RelationNumaNode | RelationCache | RelationProcessorPackage
  | RelationGroup

text \<open>
  \<open>SYSTEM_LOGICAL_PROCESSOR_INFORMATION\<close>, with the two fields the code reads. Its
  size is 32 bytes on Win64.
\<close>

record SLPI =
  ProcessorMask :: ULONG_PTR
  Relationship :: LOGICAL_PROCESSOR_RELATIONSHIP

definition sizeof_SLPI :: nat where
  "sizeof_SLPI = 32"

definition ERROR_INSUFFICIENT_BUFFER :: DWORD where
  "ERROR_INSUFFICIENT_BUFFER = 122"

text \<open>
  What one call \<open>glpi(buffer, &returnLength)\<close> answers. \<open>Success n es\<close>: the call
  returns TRUE, stores \<open>n\<close> in \<open>returnLength\<close> and has written the entries \<open>es\<close> to
  the buffer. \<open>Failure e n\<close>: the call returns FALSE, \<open>GetLastError()\<close> is \<open>e\<close> and
  \<open>returnLength\<close> is \<open>n\<close>.
\<close>

datatype glpi_reply = Success DWORD "SLPI list" | Failure DWORD DWORD

text \<open>
  The environment of the Windows body. \<open>GetProcAddress_glpi\<close> is \<open>None\<close> when the
  entry point is not resolved, else the answers of the successive calls (call 0, 1, \<dots>).
  \<open>malloc_ok i\<close>: the \<open>malloc\<close> after the failing call \<open>i\<close> returns a buffer.
\<close>

record win_env =
  GetProcAddress_glpi :: "(nat \<Rightarrow> glpi_reply) option"
  malloc_ok :: "nat \<Rightarrow> bool"
  dwNumberOfProcessors :: DWORD

datatype glpi_loop_result =
  LoopDone "SLPI list option" DWORD | GotoFailed | LoopExit c_int string

text \<open>
  The loop \<open>while(!done)\<close>. It runs for as long as the system answers "insufficient
  buffer", so it is a partial function: \<open>None\<close> is the loop that never ends.
  \<open>buffer\<close> is \<open>None\<close> for the null pointer, else the entries it holds (none after
  \<open>malloc\<close>).
\<close>

partial_function (option) glpi_loop ::
  "(nat \<Rightarrow> glpi_reply) \<Rightarrow> (nat \<Rightarrow> bool) \<Rightarrow> nat \<Rightarrow> SLPI list option \<Rightarrow> DWORD
     \<Rightarrow> glpi_loop_result option" where
  "glpi_loop glpi mallocs i buffer returnLength =
     (case glpi i of
        Failure lastError returnLength' \<Rightarrow>
          if lastError = ERROR_INSUFFICIENT_BUFFER
          then (if mallocs i
                then glpi_loop glpi mallocs (i + 1) (Some []) returnLength'
                else Some (LoopExit 1 ''lz4''))
          else Some GotoFailed
      | Success returnLength' entries \<Rightarrow>
          Some (LoopDone (map_option (\<lambda>_. entries) buffer) returnLength'))"

text \<open>
  The walk over the buffer. \<open>ptr\<close> is the index of the entry \<open>ptr\<close> points to;
  \<open>byteOffset\<close> is a \<open>size_t\<close>, at most \<open>returnLength\<close> \<open>< 2 ^ 32\<close> before the
  addition, which therefore does not wrap in 64 bits. Reading an entry the buffer does
  not hold is the fault \<open>None\<close>.
\<close>

function topology_walk ::
  "SLPI list \<Rightarrow> nat \<Rightarrow> nat \<Rightarrow> DWORD \<Rightarrow> c_int \<Rightarrow> c_int option" where
  "topology_walk buffer ptr byteOffset returnLength numCores =
     (if byteOffset + sizeof_SLPI \<le> unat returnLength
      then (if ptr < length buffer
            then topology_walk buffer (ptr + 1) (byteOffset + sizeof_SLPI) returnLength
                   (if Relationship (buffer ! ptr) = RelationProcessorCore
                    then numCores + CountSetBits (ProcessorMask (buffer ! ptr))
                    else numCores)
            else None)
      else Some numCores)"
  by pat_completeness auto
termination
  by (relation "measure (\<lambda>(buffer, ptr, byteOffset, returnLength, numCores).
        unat returnLength + sizeof_SLPI - byteOffset)")
    (auto simp: sizeof_SLPI_def)

declare topology_walk.simps [simp del]

text \<open>The block after the label \<open>failed:\<close>.\<close>

definition win_failed :: "win_env \<Rightarrow> outcome" where
  "win_failed env =
     (let numCores = dwNumberOfProcessors env;
          numCores = (if numCores = 0 then 1 else numCores)
      in Return numCores numCores)"

definition UTIL_countCores_windows :: "win_env \<Rightarrow> c_int \<Rightarrow> outcome option" where
  "UTIL_countCores_windows env numCores =
     (if numCores \<noteq> 0 then Some (Return numCores numCores)
      else case GetProcAddress_glpi env of
        None \<Rightarrow> Some (win_failed env)
      | Some glpi \<Rightarrow>
         (case glpi_loop glpi (malloc_ok env) 0 None 0 of
            None \<Rightarrow> None
          | Some GotoFailed \<Rightarrow> Some (win_failed env)
          | Some (LoopExit status msg) \<Rightarrow> Some (Exit status msg)
          | Some (LoopDone buffer returnLength) \<Rightarrow>
             (case topology_walk (case buffer of None \<Rightarrow> [] | Some entries \<Rightarrow> entries)
                     0 0 returnLength numCores of
                None \<Rightarrow> Some Fault
              | Some numCores' \<Rightarrow> Some (Return numCores' numCores'))))"

text \<open>The count the specification gives for a complete buffer.\<close>

definition core_bits :: "SLPI list \<Rightarrow> nat" where
  "core_bits entries =
     sum_list (map (\<lambda>e. popcount (ProcessorMask e))
       (filter (\<lambda>e. Relationship e = RelationProcessorCore) entries))"

subsection \<open>\<open>sysctlbyname\<close> and \<open>sysconf\<close>\<close>

text \<open>
  \<open>SysctlOk v\<close>: the query returns 0 and stores \<open>v\<close>. \<open>SysctlFail e\<close>: it returns
  a non-zero value, stores nothing and sets \<open>errno\<close> to \<open>e\<close>.
\<close>

datatype sysctl_reply = SysctlOk c_int | SysctlFail int

definition ENOENT :: int where
  "ENOENT = 2"

text \<open>
  The generic backend: \<open>numCores = (int)sysconf(_SC_NPROCESSORS_ONLN)\<close>, and 1 in place
  of \<open>-1\<close>. The argument is what \<open>sysconf\<close> returns.
\<close>

definition sysconf_cores :: "c_long \<Rightarrow> c_int" where
  "sysconf_cores r = (let numCores = ucast r in if numCores = - 1 then 1 else numCores)"

definition UTIL_countCores_posix :: "c_long \<Rightarrow> c_int \<Rightarrow> outcome" where
  "UTIL_countCores_posix sysconf_onln numCores =
     (if numCores \<noteq> 0 then Return numCores numCores
      else let numCores = sysconf_cores sysconf_onln in Return numCores numCores)"

subsection \<open>Apple\<close>

definition UTIL_countCores_apple :: "sysctl_reply \<Rightarrow> c_int \<Rightarrow> outcome" where
  "UTIL_countCores_apple hw_logicalcpu numCores =
     (if numCores \<noteq> 0 then Return numCores numCores
      else case hw_logicalcpu of
        SysctlOk v \<Rightarrow> Return v v
      | SysctlFail e \<Rightarrow> Return 1 1)"

subsection \<open>FreeBSD\<close>

record freebsd_env =
  FreeBSD_version :: nat
  kern_smp_cores :: sysctl_reply
  kern_smp_threads_per_core :: sysctl_reply
  freebsd_sysconf :: c_long

text \<open>
  The block under \<open>#if __FreeBSD_version >= 1300008\<close>; \<open>None\<close> when control falls
  through to the \<open>sysconf\<close> method.
\<close>

definition freebsd_sysctl :: "freebsd_env \<Rightarrow> outcome option" where
  "freebsd_sysctl env =
     (case kern_smp_cores env of
        SysctlOk numCores \<Rightarrow>
          (case kern_smp_threads_per_core env of
             SysctlFail e \<Rightarrow> Some (Return numCores numCores)
           | SysctlOk perCore \<Rightarrow> Some (Return (numCores * perCore) (numCores * perCore)))
      | SysctlFail errno \<Rightarrow>
          if errno \<noteq> ENOENT then Some (Exit 1 ''lz4: can't get number of cpus'')
          else None)"

definition UTIL_countCores_freebsd :: "freebsd_env \<Rightarrow> c_int \<Rightarrow> outcome" where
  "UTIL_countCores_freebsd env numCores =
     (if numCores \<noteq> 0 then Return numCores numCores
      else case (if 1300008 \<le> FreeBSD_version env then freebsd_sysctl env else None) of
        Some out \<Rightarrow> out
      | None \<Rightarrow> (let numCores = sysconf_cores (freebsd_sysconf env)
                 in Return numCores numCores))"

subsection \<open>Linux\<close>

text \<open>
  C strings are character lists: the string ends at its first \<open>NUL\<close> character, or
  where the list ends. \<open>strncmp0 s1 s2 n\<close> is \<open>strncmp(s1, s2, n) == 0\<close>;
  \<open>strchr\<close> returns the offset of the character found, \<open>None\<close> for the null
  pointer; \<open>deref s p\<close> is \<open>s[p]\<close>.
\<close>

definition NUL :: char where
  "NUL = CHR 0x00"

fun strncmp0 :: "string \<Rightarrow> string \<Rightarrow> nat \<Rightarrow> bool" where
  "strncmp0 s1 s2 0 = True"
| "strncmp0 [] [] (Suc n) = True"
| "strncmp0 [] (y # s2) (Suc n) = (y = NUL)"
| "strncmp0 (x # s1) [] (Suc n) = (x = NUL)"
| "strncmp0 (x # s1) (y # s2) (Suc n) = (x = y \<and> (x = NUL \<or> strncmp0 s1 s2 n))"

fun strchr :: "string \<Rightarrow> char \<Rightarrow> nat option" where
  "strchr [] c = (if c = NUL then Some 0 else None)"
| "strchr (x # s) c =
     (if x = c then Some 0 else if x = NUL then None else map_option Suc (strchr s c))"

definition deref :: "string \<Rightarrow> nat \<Rightarrow> char" where
  "deref s p = (if p < length s then s ! p else NUL)"

definition isspace :: "char \<Rightarrow> bool" where
  "isspace c = (c \<in> set [CHR 0x20, CHR 0x09, CHR 0x0A, CHR 0x0B, CHR 0x0C, CHR 0x0D])"

definition isdigit :: "char \<Rightarrow> bool" where
  "isdigit c = (48 \<le> (of_char c :: nat) \<and> (of_char c :: nat) \<le> 57)"

fun atoi_digits :: "int \<Rightarrow> string \<Rightarrow> int" where
  "atoi_digits acc [] = acc"
| "atoi_digits acc (c # s) =
     (if isdigit c then atoi_digits (10 * acc + (of_char c - 48)) s else acc)"

text \<open>
  \<open>atoi\<close>: white space, an optional sign, decimal digits. C leaves the result open
  when the number does not fit an \<open>int\<close>; here it is cut to 32 bits.
\<close>

definition atoi :: "string \<Rightarrow> c_int" where
  "atoi nptr =
     (case dropWhile isspace nptr of
        [] \<Rightarrow> 0
      | c # s \<Rightarrow>
          if c = CHR ''-'' then word_of_int (- atoi_digits 0 s)
          else if c = CHR ''+'' then word_of_int (atoi_digits 0 s)
          else word_of_int (atoi_digits 0 (c # s)))"

text \<open>
  A stream open for reading: the characters not read yet, whether reading past the last
  of them is a read error (rather than the end of the file), and the two indicators
  \<open>feof\<close> and \<open>ferror\<close> test.
\<close>

record FILE =
  unread :: string
  fails :: bool
  eof_ind :: bool
  err_ind :: bool

definition BUF_SIZE :: nat where
  "BUF_SIZE = 80"

text \<open>
  \<open>fgets_chars n cs\<close> takes at most \<open>n\<close> characters, stopping after a newline:
  the characters taken, the rest, and whether it asked for a character when none was left.
\<close>

fun fgets_chars :: "nat \<Rightarrow> string \<Rightarrow> string \<times> string \<times> bool" where
  "fgets_chars 0 cs = ([], cs, False)"
| "fgets_chars (Suc n) [] = ([], [], True)"
| "fgets_chars (Suc n) (c # cs) =
     (if c = CHR 0x0A then ([c], cs, False)
      else (case fgets_chars n cs of (line, rest, hit_end) \<Rightarrow> (c # line, rest, hit_end)))"

text \<open>
  \<open>fgets(buff, n, f)\<close>: the string stored in \<open>buff\<close> (\<open>None\<close> for the null
  pointer) and the stream afterwards. A read error returns the null pointer; the end of
  the file returns it when no character was read.
\<close>

definition fgets :: "nat \<Rightarrow> FILE \<Rightarrow> string option \<times> FILE" where
  "fgets n f =
     (case fgets_chars (n - 1) (unread f) of (line, rest, hit_end) \<Rightarrow>
        if hit_end
        then (if fails f then (None, f\<lparr>unread := rest, err_ind := True\<rparr>)
              else (if line = [] then None else Some line,
                    f\<lparr>unread := rest, eof_ind := True\<rparr>))
        else (Some line, f\<lparr>unread := rest\<rparr>))"

text \<open>
  The lines the source repeats for both fields: find the colon, test it, convert what
  follows. \<open>None\<close> is \<open>goto failed\<close>.
\<close>

definition field_value :: "string \<Rightarrow> c_int option" where
  "field_value buff =
     (case strchr buff CHR '':'' of
        None \<Rightarrow> None
      | Some sep \<Rightarrow>
          if deref buff sep = NUL then None else Some (atoi (drop (sep + 1) buff)))"

datatype scan_result = ScanFailed FILE | ScanEnd c_int c_int FILE

text \<open>
  The loop \<open>while (!feof(cpuinfo))\<close>. \<open>ScanFailed\<close> is a \<open>goto failed\<close>;
  \<open>ScanEnd\<close> is the end of the loop, with the values of \<open>siblings\<close> and
  \<open>cpu_cores\<close>. Both carry the stream as the scan leaves it.
\<close>

function scan_cpuinfo :: "FILE \<Rightarrow> c_int \<Rightarrow> c_int \<Rightarrow> scan_result" where
  "scan_cpuinfo cpuinfo siblings cpu_cores =
     (if eof_ind cpuinfo then ScanEnd siblings cpu_cores cpuinfo
      else case fgets BUF_SIZE cpuinfo of
        (Some buff, cpuinfo') \<Rightarrow>
          (case (if strncmp0 buff ''siblings'' 8 then field_value buff else Some siblings) of
             None \<Rightarrow> ScanFailed cpuinfo'
           | Some siblings' \<Rightarrow>
              (case (if strncmp0 buff ''cpu cores'' 9 then field_value buff
                     else Some cpu_cores) of
                 None \<Rightarrow> ScanFailed cpuinfo'
               | Some cpu_cores' \<Rightarrow> scan_cpuinfo cpuinfo' siblings' cpu_cores'))
      | (None, cpuinfo') \<Rightarrow>
          if err_ind cpuinfo' then ScanFailed cpuinfo'
          else scan_cpuinfo cpuinfo' siblings cpu_cores)"
  by pat_completeness auto
termination
proof (relation "measure (\<lambda>(f, s, c). 2 * length (unread f) + (if eof_ind f then 0 else 1))",
    goal_cases)
  have len: "length cs = length line + length rest"
    if "fgets_chars n cs = (line, rest, hit_end)" for n cs line rest hit_end
    using that
    by (induction n cs arbitrary: line rest hit_end rule: fgets_chars.induct)
       (auto split: if_splits prod.splits)
  have nonempty: "line \<noteq> []"
    if "fgets_chars (Suc n) cs = (line, rest, False)" for n cs line rest
    using that by (cases cs) (auto split: if_splits prod.splits)
  have chars: "\<exists>line rest hit_end.
      fgets_chars (BUF_SIZE - 1) (unread f) = (line, rest, hit_end) \<and>
      length (unread f) = length line + length rest \<and> (\<not> hit_end \<longrightarrow> line \<noteq> [])" for f
  proof -
    obtain line rest hit_end where
      eq: "fgets_chars (BUF_SIZE - 1) (unread f) = (line, rest, hit_end)"
      by (cases "fgets_chars (BUF_SIZE - 1) (unread f)") auto
    have "BUF_SIZE - 1 = Suc 78"
      by (simp add: BUF_SIZE_def)
    with eq have "\<not> hit_end \<longrightarrow> line \<noteq> []"
      using nonempty [of 78 "unread f" line rest] by auto
    with eq len [OF eq] show ?thesis
      by blast
  qed
  have shorter: "length (unread f') < length (unread f)"
    if "(Some buff, f') = fgets BUF_SIZE f" for buff f f'
    using that chars [of f] by (auto simp: fgets_def split: if_splits)
  have at_end: "eof_ind f'" "length (unread f') \<le> length (unread f)"
    if "(None, f') = fgets BUF_SIZE f" and "\<not> err_ind f'" for f f'
    using that chars [of f] by (auto simp: fgets_def split: if_splits)
  {
    case 1
    show ?case by simp
  next
    case 2
    then show ?case
      by (auto dest: at_end)
  next
    case 3
    then show ?case
      by (auto dest!: shorter)
  }
qed

declare scan_cpuinfo.simps [simp del]

text \<open>
  The value of the local \<open>ratio\<close> at the \<open>return\<close>: 1 after a \<open>goto failed\<close>,
  else what the test after the loop leaves. \<open>/\<close> is C's division, which truncates.
\<close>

definition cpuinfo_ratio :: "FILE \<Rightarrow> c_int" where
  "cpuinfo_ratio cpuinfo =
     (case scan_cpuinfo cpuinfo 0 0 of
        ScanFailed f \<Rightarrow> 1
      | ScanEnd siblings cpu_cores f \<Rightarrow>
          if siblings \<noteq> 0 \<and> cpu_cores \<noteq> 0 \<and> sint cpu_cores < sint siblings
          then word_of_int (sint siblings sdiv sint cpu_cores) else 1)"

text \<open>
  The environment: what \<open>sysconf\<close> returns, and the stream \<open>fopen\<close> returns
  (\<open>None\<close> for the null pointer).
\<close>

record linux_env =
  linux_sysconf :: c_long
  proc_cpuinfo :: "FILE option"

definition UTIL_countCores_linux :: "linux_env \<Rightarrow> c_int \<Rightarrow> outcome" where
  "UTIL_countCores_linux env numCores =
     (if numCores \<noteq> 0 then Return numCores numCores
      else let numCores = ucast (linux_sysconf env) in
        if numCores = - 1 then Return 1 1
        else case proc_cpuinfo env of
          None \<Rightarrow> Return numCores numCores
        | Some cpuinfo \<Rightarrow>
            (let ratio = cpuinfo_ratio cpuinfo in Return numCores numCores))"

subsection \<open>Any other platform\<close>

definition UTIL_countCores_unknown :: c_int where
  "UTIL_countCores_unknown = 1"

section \<open>Properties\<close>

subsection \<open>\<open>CountSetBits\<close> counts the bits of the mask\<close>

lemma half_push_bit_word:
  "(push_bit (Suc d) 1 :: ULONG_PTR) div 2 = push_bit d 1" if "Suc d < 64"
proof -
  have "(push_bit (Suc d) 1 :: ULONG_PTR) div 2 = drop_bit 1 (push_bit (Suc d) 1)"
    by (simp add: drop_bit_eq_div)
  also have "\<dots> = push_bit d 1"
    using that by (intro bit_word_eqI) (auto simp: bit_simps simp del: push_bit_of_1 push_bit_Suc)
  finally show ?thesis .
qed

lemma CountSetBits_loop_exit:
  "LSHIFT < i \<Longrightarrow> CountSetBits_loop LSHIFT bitMask bitTest bitSetCount i = bitSetCount"
  by (simp add: CountSetBits_loop.simps)

lemma CountSetBits_loop_step:
  "i \<le> LSHIFT \<Longrightarrow> bitTest = push_bit k 1 \<Longrightarrow>
   CountSetBits_loop LSHIFT bitMask bitTest bitSetCount i =
     CountSetBits_loop LSHIFT bitMask (bitTest div 2)
       (bitSetCount + (if bit bitMask k then 1 else 0)) (Suc i)"
  by (subst CountSetBits_loop.simps) (simp add: bit_iff_and_push_bit_not_eq_0)

lemma CountSetBits_loop_counts:
  "d < 64 \<Longrightarrow> LSHIFT = i + d \<Longrightarrow>
   CountSetBits_loop LSHIFT bitMask (push_bit d 1) bitSetCount i =
     bitSetCount + of_nat (length (filter (bit bitMask) [0..<Suc d]))"
proof (induction d arbitrary: i bitSetCount)
  case 0
  then show ?case
    by (simp add: CountSetBits_loop_step [where k = 0] CountSetBits_loop_exit)
next
  case (Suc d)
  have "CountSetBits_loop LSHIFT bitMask (push_bit (Suc d) 1) bitSetCount i =
        CountSetBits_loop LSHIFT bitMask (push_bit d 1)
          (bitSetCount + (if bit bitMask (Suc d) then 1 else 0)) (Suc i)"
    using Suc.prems
    by (simp add: CountSetBits_loop_step [where k = "Suc d"] half_push_bit_word
        del: push_bit_of_1 push_bit_Suc)
  also have "\<dots> = bitSetCount + (if bit bitMask (Suc d) then 1 else 0) +
        of_nat (length (filter (bit bitMask) [0..<Suc d]))"
    using Suc.prems by (intro Suc.IH) simp_all
  finally show ?case
    by simp
qed

lemma CountSetBits_popcount: "CountSetBits bitMask = of_nat (popcount bitMask)"
  using CountSetBits_loop_counts [of 63 63 0 bitMask 0]
  by (simp add: CountSetBits_def popcount_def del: push_bit_of_1)

lemma popcount_card: "popcount w = card {n. bit w n}"
proof -
  have "{n. bit w n} = {n \<in> set [0..<64]. bit w n}"
    by (auto dest: bit_imp_le_length)
  moreover have "distinct (filter (bit w) [0..<64])" by simp
  ultimately show ?thesis
    unfolding popcount_def by (metis distinct_card set_filter)
qed

lemma core_bits_Cons:
  "core_bits (e # es) =
     (if Relationship e = RelationProcessorCore then popcount (ProcessorMask e) else 0)
       + core_bits es"
  by (simp add: core_bits_def)

lemma core_bits_Nil: "core_bits [] = 0"
  by (simp add: core_bits_def)

lemma topology_walk_sum:
  assumes "unat returnLength div sizeof_SLPI \<le> length buffer"
    and "ptr \<le> unat returnLength div sizeof_SLPI"
  shows "topology_walk buffer ptr (ptr * sizeof_SLPI) returnLength numCores =
         Some (numCores +
           of_nat (core_bits (drop ptr (take (unat returnLength div sizeof_SLPI) buffer))))"
  using assms(2)
proof (induction "unat returnLength div sizeof_SLPI - ptr" arbitrary: ptr numCores)
  case 0
  then have "ptr = unat returnLength div sizeof_SLPI"
    by simp
  then have "\<not> ptr * sizeof_SLPI + sizeof_SLPI \<le> unat returnLength"
    by (simp add: sizeof_SLPI_def)
  with \<open>ptr = _\<close> assms(1) show ?case
    by (subst topology_walk.simps) (simp add: core_bits_Nil)
next
  case (Suc d)
  let ?K = "unat returnLength div sizeof_SLPI"
  from Suc.hyps(2) have lt: "ptr < ?K"
    by simp
  then have fits: "ptr * sizeof_SLPI + sizeof_SLPI \<le> unat returnLength"
    by (simp add: sizeof_SLPI_def)
  from lt assms(1) have inb: "ptr < length buffer"
    by simp
  have d: "drop ptr (take ?K buffer) = buffer ! ptr # drop (Suc ptr) (take ?K buffer)"
    using lt inb by (simp add: Cons_nth_drop_Suc [symmetric])
  have "topology_walk buffer ptr (ptr * sizeof_SLPI) returnLength numCores =
        topology_walk buffer (Suc ptr) (Suc ptr * sizeof_SLPI) returnLength
          (if Relationship (buffer ! ptr) = RelationProcessorCore
           then numCores + CountSetBits (ProcessorMask (buffer ! ptr)) else numCores)"
    using fits inb by (subst topology_walk.simps) (simp add: add.commute)
  also have "\<dots> = Some ((if Relationship (buffer ! ptr) = RelationProcessorCore
           then numCores + CountSetBits (ProcessorMask (buffer ! ptr)) else numCores) +
           of_nat (core_bits (drop (Suc ptr) (take ?K buffer))))"
    using Suc.hyps(2) lt by (intro Suc.hyps(1)) simp_all
  finally show ?case
    by (simp add: d core_bits_Cons CountSetBits_popcount)
qed

lemma topology_walk_fault:
  assumes "length buffer < unat returnLength div sizeof_SLPI" and "ptr \<le> length buffer"
  shows "topology_walk buffer ptr (ptr * sizeof_SLPI) returnLength numCores = None"
  using assms(2)
proof (induction "length buffer - ptr" arbitrary: ptr numCores)
  case 0
  then have "ptr = length buffer" by simp
  with assms(1) have "ptr * sizeof_SLPI + sizeof_SLPI \<le> unat returnLength"
    by (simp add: sizeof_SLPI_def)
  with \<open>ptr = _\<close> show ?case
    by (subst topology_walk.simps) simp
next
  case (Suc d)
  then have inb: "ptr < length buffer" by simp
  with assms(1) have fits: "ptr * sizeof_SLPI + sizeof_SLPI \<le> unat returnLength"
    by (simp add: sizeof_SLPI_def)
  have "topology_walk buffer ptr (ptr * sizeof_SLPI) returnLength numCores =
        topology_walk buffer (Suc ptr) (Suc ptr * sizeof_SLPI) returnLength
          (if Relationship (buffer ! ptr) = RelationProcessorCore
           then numCores + CountSetBits (ProcessorMask (buffer ! ptr)) else numCores)"
    using fits inb by (subst topology_walk.simps) (simp add: add.commute)
  also have "\<dots> = None"
    using Suc.hyps(2) inb by (intro Suc.hyps(1)) simp_all
  finally show ?case .
qed

lemma popcount_3: "popcount 3 = 2"
  by (simp add: popcount_def upt_rec bit_numeral_rec)
lemma popcount_240: "popcount 240 = 4"
  by code_simp

subsection \<open>The Windows retry loop\<close>

lemma glpi_loop_retry:
  assumes "\<forall>j<n. \<exists>rl. glpi (i + j) = Failure ERROR_INSUFFICIENT_BUFFER rl \<and> mallocs (i + j)"
  shows "\<exists>buffer' returnLength'.
           glpi_loop glpi mallocs i buffer returnLength =
             glpi_loop glpi mallocs (i + n) buffer' returnLength' \<and>
           (0 < n \<longrightarrow> buffer' = Some []) \<and> (n = 0 \<longrightarrow> buffer' = buffer)"
  using assms
proof (induction n arbitrary: i buffer returnLength)
  case 0
  show ?case by auto
next
  case (Suc n)
  from Suc.prems [rule_format, of 0] obtain rl where
    first: "glpi i = Failure ERROR_INSUFFICIENT_BUFFER rl" "mallocs i"
    by auto
  have "\<forall>j<n. \<exists>rl. glpi (Suc i + j) = Failure ERROR_INSUFFICIENT_BUFFER rl \<and> mallocs (Suc i + j)"
    using Suc.prems [rule_format, of "Suc _"] by auto
  from Suc.IH [OF this, of "Some []" rl] obtain buffer' returnLength' where
    "glpi_loop glpi mallocs (Suc i) (Some []) rl =
       glpi_loop glpi mallocs (Suc i + n) buffer' returnLength'"
    "n = 0 \<longrightarrow> buffer' = Some []" "0 < n \<longrightarrow> buffer' = Some []"
    by auto
  moreover have "glpi_loop glpi mallocs i buffer returnLength =
      glpi_loop glpi mallocs (Suc i) (Some []) rl"
    using first by (subst glpi_loop.simps) simp
  ultimately show ?case
    by (intro exI [of _ buffer'] exI [of _ returnLength']) auto
qed

lemma glpi_loop_other_error:
  assumes "\<forall>j<n. \<exists>rl. glpi j = Failure ERROR_INSUFFICIENT_BUFFER rl \<and> mallocs j"
    and "glpi n = Failure e rl" and "e \<noteq> ERROR_INSUFFICIENT_BUFFER"
  shows "glpi_loop glpi mallocs 0 None 0 = Some GotoFailed"
proof -
  from glpi_loop_retry [of n glpi 0 mallocs None 0] assms(1)
  obtain buffer' returnLength' where
    "glpi_loop glpi mallocs 0 None 0 = glpi_loop glpi mallocs n buffer' returnLength'"
    by auto
  also have "\<dots> = Some GotoFailed"
    using assms(2,3) by (subst glpi_loop.simps) simp
  finally show ?thesis .
qed

lemma win_failed_eq:
  "win_failed env =
     (if dwNumberOfProcessors env = 0 then Return 1 1
      else Return (dwNumberOfProcessors env) (dwNumberOfProcessors env))"
  by (simp add: win_failed_def Let_def)

subsection \<open>The Windows walk\<close>

text \<open>
  Claim C5. On Windows, when the retry loop ends with a complete buffer (the entries
  \<open>entries\<close> that the reported length \<open>returnLength\<close> holds), an uncached call
  returns, and caches, the sum over the entries whose relationship is
  \<open>RelationProcessorCore\<close> of the number of bits set in their masks; the other
  entries add nothing. \<open>CountSetBits\<close> of a mask is the number of its set bits, for
  every mask.
\<close>

theorem windows_core_count:
  assumes "GetProcAddress_glpi env = Some glpi"
    and "glpi_loop glpi (malloc_ok env) 0 None 0 = Some (LoopDone (Some entries) returnLength)"
    and "length entries = unat returnLength div sizeof_SLPI"
  shows "UTIL_countCores_windows env 0 =
           Some (Return (of_nat (core_bits entries)) (of_nat (core_bits entries))) \<and>
         (\<forall>mask. CountSetBits mask = of_nat (popcount mask) \<and>
                 popcount mask = card {n. bit mask n})"
proof -
  have "topology_walk entries 0 0 returnLength 0 = Some (of_nat (core_bits entries))"
    using topology_walk_sum [of returnLength entries 0 0] assms(3) by simp
  with assms(1,2) show ?thesis
    by (simp add: UTIL_countCores_windows_def CountSetBits_popcount popcount_card)
qed

theorem windows_core_count_witness:
  "UTIL_countCores_windows
     \<lparr>GetProcAddress_glpi =
        Some (\<lambda>i. if i = 0 then Failure ERROR_INSUFFICIENT_BUFFER 96
           else Success 96
             [\<lparr>ProcessorMask = 3, Relationship = RelationProcessorCore\<rparr>,
              \<lparr>ProcessorMask = 15, Relationship = RelationNumaNode\<rparr>,
              \<lparr>ProcessorMask = 240, Relationship = RelationProcessorCore\<rparr>]),
      malloc_ok = (\<lambda>i. True), dwNumberOfProcessors = 1\<rparr> 0 = Some (Return 6 6)"
proof -
  let ?es = "[\<lparr>ProcessorMask = 3, Relationship = RelationProcessorCore\<rparr>,
         \<lparr>ProcessorMask = 15, Relationship = RelationNumaNode\<rparr>,
         \<lparr>ProcessorMask = 240, Relationship = RelationProcessorCore\<rparr>]"
  let ?g = "\<lambda>i::nat. if i = 0 then Failure ERROR_INSUFFICIENT_BUFFER 96 else Success 96 ?es"
  let ?env = "\<lparr>GetProcAddress_glpi = Some ?g, malloc_ok = (\<lambda>i. True),
      dwNumberOfProcessors = 1\<rparr>"
  have loop: "glpi_loop ?g (malloc_ok ?env) 0 None 0 = Some (LoopDone (Some ?es) 96)"
    by (simp add: glpi_loop.simps)
  have len: "length ?es = unat (96 :: DWORD) div sizeof_SLPI"
    by (simp add: sizeof_SLPI_def)
  have "core_bits ?es = 6"
    by (simp add: core_bits_def popcount_3 popcount_240)
  with windows_core_count [of ?env ?g ?es 96, OF _ loop len] show ?thesis
    by simp
qed

text \<open>
  Claim C10. The walk reads the entry at \<open>ptr\<close> only under the test
  \<open>byteOffset + sizeof \<le> returnLength\<close>, so it reads exactly the entries that lie
  whole within \<open>returnLength\<close> bytes, the first \<open>returnLength div sizeof\<close>: it
  faults exactly when the buffer holds fewer, and what follows them (the partial bytes
  of a length that is not a multiple of the entry size, and anything beyond) is never
  read, the walk being the same on the buffer cut after them.
\<close>

theorem walk_within_reported_length:
  "(topology_walk buffer 0 0 returnLength numCores = None \<longleftrightarrow>
      length buffer < unat returnLength div sizeof_SLPI) \<and>
   (unat returnLength div sizeof_SLPI \<le> length buffer \<longrightarrow>
      topology_walk buffer 0 0 returnLength numCores =
        topology_walk (take (unat returnLength div sizeof_SLPI) buffer) 0 0 returnLength numCores)"
proof (cases "length buffer < unat returnLength div sizeof_SLPI")
  case True
  then show ?thesis
    using topology_walk_fault [of buffer returnLength 0 numCores] by simp
next
  case False
  then have le: "unat returnLength div sizeof_SLPI \<le> length buffer"
    by simp
  let ?K = "unat returnLength div sizeof_SLPI"
  have "topology_walk buffer 0 0 returnLength numCores =
      Some (numCores + of_nat (core_bits (take ?K buffer)))"
    using topology_walk_sum [OF le, of 0 numCores] by simp
  moreover have "topology_walk (take ?K buffer) 0 0 returnLength numCores =
      Some (numCores + of_nat (core_bits (take ?K buffer)))"
    using topology_walk_sum [of returnLength "take ?K buffer" 0 numCores] le by simp
  ultimately show ?thesis
    using False by simp
qed

theorem walk_within_reported_length_witness:
  "topology_walk
     [\<lparr>ProcessorMask = 3, Relationship = RelationProcessorCore\<rparr>,
      \<lparr>ProcessorMask = 15, Relationship = RelationNumaNode\<rparr>,
      \<lparr>ProcessorMask = 240, Relationship = RelationProcessorCore\<rparr>] 0 0 70 0 = Some 2"
proof -
  let ?b = "[\<lparr>ProcessorMask = 3, Relationship = RelationProcessorCore\<rparr>,
      \<lparr>ProcessorMask = 15, Relationship = RelationNumaNode\<rparr>,
      \<lparr>ProcessorMask = 240, Relationship = RelationProcessorCore\<rparr>]"
  have k: "unat (70 :: DWORD) div sizeof_SLPI = 2" "length ?b = 3"
    by (simp_all add: sizeof_SLPI_def)
  with walk_within_reported_length [of ?b 70 0]
  have "topology_walk ?b 0 0 70 0 = topology_walk (take 2 ?b) 0 0 70 0"
    by simp
  also have "\<dots> = Some 2"
    by (simp add: topology_walk.simps sizeof_SLPI_def CountSetBits_popcount popcount_3)
  finally show ?thesis .
qed

text \<open>
  Claim C9. On Windows, when the entry point is not resolved, or a call to it fails with
  an error other than "insufficient buffer" (the calls before it having asked for a
  larger buffer, which was allocated), an uncached call returns the processor count of
  \<open>GetSystemInfo\<close>, and 1 when that count is 0.
\<close>

theorem windows_fallback:
  assumes "GetProcAddress_glpi env = None \<or>
     (\<exists>glpi n e rl. GetProcAddress_glpi env = Some glpi \<and>
        (\<forall>j<n. \<exists>rl'. glpi j = Failure ERROR_INSUFFICIENT_BUFFER rl' \<and> malloc_ok env j) \<and>
        glpi n = Failure e rl \<and> e \<noteq> ERROR_INSUFFICIENT_BUFFER)"
  shows "UTIL_countCores_windows env 0 =
     Some (if dwNumberOfProcessors env = 0 then Return 1 1
           else Return (dwNumberOfProcessors env) (dwNumberOfProcessors env))"
  using assms
proof (elim disjE exE conjE)
  assume "GetProcAddress_glpi env = None"
  then show ?thesis
    by (simp add: UTIL_countCores_windows_def win_failed_eq)
next
  fix glpi n e rl
  assume "GetProcAddress_glpi env = Some glpi"
    and "\<forall>j<n. \<exists>rl'. glpi j = Failure ERROR_INSUFFICIENT_BUFFER rl' \<and> malloc_ok env j"
    and "glpi n = Failure e rl" and "e \<noteq> ERROR_INSUFFICIENT_BUFFER"
  then show ?thesis
    using glpi_loop_other_error [of n glpi "malloc_ok env" e rl]
    by (simp add: UTIL_countCores_windows_def win_failed_eq)
qed

theorem windows_fallback_witness:
  "UTIL_countCores_windows
     \<lparr>GetProcAddress_glpi =
        Some (\<lambda>i. if i = 0 then Failure ERROR_INSUFFICIENT_BUFFER 64 else Failure 5 0),
      malloc_ok = (\<lambda>i. True), dwNumberOfProcessors = 0\<rparr> 0 = Some (Return 1 1)"
proof -
  let ?g = "\<lambda>i::nat. if i = 0 then Failure ERROR_INSUFFICIENT_BUFFER 64 else Failure 5 0"
  let ?env = "\<lparr>GetProcAddress_glpi = Some ?g, malloc_ok = (\<lambda>i. True),
      dwNumberOfProcessors = 0\<rparr>"
  have "GetProcAddress_glpi ?env = None \<or>
     (\<exists>glpi n e rl. GetProcAddress_glpi ?env = Some glpi \<and>
        (\<forall>j<n. \<exists>rl'. glpi j = Failure ERROR_INSUFFICIENT_BUFFER rl' \<and> malloc_ok ?env j) \<and>
        glpi n = Failure e rl \<and> e \<noteq> ERROR_INSUFFICIENT_BUFFER)"
    by (intro disjI2 exI [of _ ?g] exI [of _ 1] exI [of _ 5] exI [of _ 0])
       (simp add: ERROR_INSUFFICIENT_BUFFER_def)
  from windows_fallback [OF this] show ?thesis
    by simp
qed

subsection \<open>Linux\<close>

text \<open>
  Claim C3. On Linux an uncached call returns what the generic \<open>sysconf\<close> backend
  returns, whatever \<open>/proc/cpuinfo\<close> holds and whether or not it opens: the ratio of
  \<open>siblings\<close> to \<open>cpu cores\<close> is computed and not applied.
\<close>

theorem linux_returns_sysconf_baseline:
  "UTIL_countCores_linux env 0 = UTIL_countCores_posix (linux_sysconf env) 0"
  by (simp add: UTIL_countCores_linux_def UTIL_countCores_posix_def sysconf_cores_def Let_def
      split: option.split)

lemma scan_siblings8_cores4:
  "scan_cpuinfo
     \<lparr>unread = ''siblings: 8\<newline>cpu cores: 4\<newline>'', fails = False, eof_ind = False,
      err_ind = False\<rparr> 0 0 =
   ScanEnd 8 4 \<lparr>unread = [], fails = False, eof_ind = True, err_ind = False\<rparr>"
  by code_simp

lemma ratio_siblings8_cores4:
  "cpuinfo_ratio
     \<lparr>unread = ''siblings: 8\<newline>cpu cores: 4\<newline>'', fails = False, eof_ind = False,
      err_ind = False\<rparr> = 2"
  by (simp add: cpuinfo_ratio_def scan_siblings8_cores4 signed_divide_int_def)

text \<open>With "siblings: 8" and "cpu cores: 4" the ratio is 2 and the call returns 8.\<close>

theorem linux_returns_sysconf_baseline_witness:
  "cpuinfo_ratio
     \<lparr>unread = ''siblings: 8\<newline>cpu cores: 4\<newline>'', fails = False, eof_ind = False,
      err_ind = False\<rparr> = 2 \<and>
   UTIL_countCores_linux
     \<lparr>linux_sysconf = 8,
      proc_cpuinfo = Some \<lparr>unread = ''siblings: 8\<newline>cpu cores: 4\<newline>'', fails = False,
        eof_ind = False, err_ind = False\<rparr>\<rparr> 0 = Return 8 8"
  using linux_returns_sysconf_baseline
    [of "\<lparr>linux_sysconf = 8,
      proc_cpuinfo = Some \<lparr>unread = ''siblings: 8\<newline>cpu cores: 4\<newline>'', fails = False,
        eof_ind = False, err_ind = False\<rparr>\<rparr>"]
  by (simp add: ratio_siblings8_cores4 UTIL_countCores_posix_def sysconf_cores_def)

text \<open>
  Claim C7 (a defect of the code). The claim has the scan abandoned when the colon of a
  matching line is at the end of the buffer. The code tests \<open>*sep == '\0'\<close> where
  \<open>sep\<close> points to the colon \<open>strchr\<close> found, so the test never holds. On a file
  that is the line "siblings:" the scan stores \<open>atoi("") = 0\<close> and runs to the end of
  the loop, it does not jump to \<open>failed\<close>. On a file whose first 79 characters,
  one full buffer, are "siblings", 70 spaces and the colon, the scan goes on after that
  buffer and reads the rest of the file, the line "cpu cores: 4" included.
\<close>

theorem colon_at_end_not_abandoned:
  "scan_cpuinfo \<lparr>unread = ''siblings:'', fails = False, eof_ind = False, err_ind = False\<rparr> 0 0
     = ScanEnd 0 0 \<lparr>unread = [], fails = False, eof_ind = True, err_ind = False\<rparr> \<and>
   fgets BUF_SIZE
     \<lparr>unread = ''siblings'' @ replicate 70 CHR '' '' @ '': 8\<newline>cpu cores: 4\<newline>'',
      fails = False, eof_ind = False, err_ind = False\<rparr> =
     (Some (''siblings'' @ replicate 70 CHR '' '' @ '':''),
      \<lparr>unread = '' 8\<newline>cpu cores: 4\<newline>'', fails = False, eof_ind = False,
       err_ind = False\<rparr>) \<and>
   scan_cpuinfo
     \<lparr>unread = ''siblings'' @ replicate 70 CHR '' '' @ '': 8\<newline>cpu cores: 4\<newline>'',
      fails = False, eof_ind = False, err_ind = False\<rparr> 0 0
     = ScanEnd 0 4 \<lparr>unread = [], fails = False, eof_ind = True, err_ind = False\<rparr>"
  by code_simp

text \<open>The character \<open>strchr\<close> points to is the one it looked for.\<close>

lemma strchr_finds:
  "strchr s c = Some p \<Longrightarrow> deref s p = c"
  by (induction s arbitrary: p) (auto simp: deref_def split: if_splits)

text \<open>
  So the second test of a matching line is dead: a line is rejected exactly when it has
  no colon.
\<close>

theorem field_value_colon_test_dead:
  "field_value buff =
     map_option (\<lambda>sep. atoi (drop (sep + 1) buff)) (strchr buff CHR '':'')"
  by (auto simp: field_value_def NUL_def split: option.split dest: strchr_finds)

text \<open>
  A matching line with no colon abandons the scan: the next step of the loop is
  \<open>goto failed\<close>.
\<close>

theorem no_colon_abandons:
  assumes "\<not> eof_ind cpuinfo" and "fgets BUF_SIZE cpuinfo = (Some buff, cpuinfo')"
    and "strncmp0 buff ''siblings'' 8 \<or> strncmp0 buff ''cpu cores'' 9"
    and "strchr buff CHR '':'' = None"
  shows "scan_cpuinfo cpuinfo siblings cpu_cores = ScanFailed cpuinfo'"
  using assms by (subst scan_cpuinfo.simps) (auto simp: field_value_def)

theorem no_colon_abandons_witness:
  "scan_cpuinfo
     \<lparr>unread = ''siblings 8\<newline>cpu cores: 4\<newline>'', fails = False, eof_ind = False,
      err_ind = False\<rparr> 0 0 =
   ScanFailed \<lparr>unread = ''cpu cores: 4\<newline>'', fails = False, eof_ind = False,
      err_ind = False\<rparr>"
proof -
  let ?f = "\<lparr>unread = ''siblings 8\<newline>cpu cores: 4\<newline>'', fails = False, eof_ind = False,
      err_ind = False\<rparr>"
  let ?f' = "\<lparr>unread = ''cpu cores: 4\<newline>'', fails = False, eof_ind = False,
      err_ind = False\<rparr>"
  have open_stream: "\<not> eof_ind ?f"
    by simp
  have line: "fgets BUF_SIZE ?f = (Some ''siblings 8\<newline>'', ?f')"
    by code_simp
  have matches: "strncmp0 ''siblings 8\<newline>'' ''siblings'' 8"
    by code_simp
  have no_colon: "strchr ''siblings 8\<newline>'' CHR '':'' = None"
    by code_simp
  show ?thesis
    by (rule no_colon_abandons [OF open_stream line disjI1 [OF matches] no_colon])
qed

subsection \<open>FreeBSD and Apple\<close>

lemma sint_mult_fits:
  "- (2 ^ 31) \<le> sint a * sint b \<Longrightarrow> sint a * sint b < 2 ^ 31 \<Longrightarrow>
   sint (a * b :: c_int) = sint a * sint b"
  by (simp add: sint_word_ariths signed_take_bit_int_eq_self)

text \<open>
  Claim C4. On FreeBSD (a version that has the query), when the query for
  \<open>kern.smp.cores\<close> fails with \<open>ENOENT\<close> an uncached call returns what the generic
  \<open>sysconf\<close> backend returns; when it fails with any other error the process prints
  the diagnostic and exits with status 1.
\<close>

theorem freebsd_sysctl_failure:
  assumes "1300008 \<le> FreeBSD_version env" and "kern_smp_cores env = SysctlFail e"
  shows "UTIL_countCores_freebsd env 0 =
     (if e = ENOENT then UTIL_countCores_posix (freebsd_sysconf env) 0
      else Exit 1 ''lz4: can't get number of cpus'')"
  using assms
  by (simp add: UTIL_countCores_freebsd_def freebsd_sysctl_def UTIL_countCores_posix_def)

theorem freebsd_sysctl_failure_witness:
  "UTIL_countCores_freebsd
     \<lparr>FreeBSD_version = 1400000, kern_smp_cores = SysctlFail 2,
      kern_smp_threads_per_core = SysctlOk 2, freebsd_sysconf = 8\<rparr> 0 = Return 8 8 \<and>
   UTIL_countCores_freebsd
     \<lparr>FreeBSD_version = 1400000, kern_smp_cores = SysctlFail 1,
      kern_smp_threads_per_core = SysctlOk 2, freebsd_sysconf = 8\<rparr> 0 =
     Exit 1 ''lz4: can't get number of cpus''"
  using
    freebsd_sysctl_failure [of "\<lparr>FreeBSD_version = 1400000, kern_smp_cores = SysctlFail 2,
      kern_smp_threads_per_core = SysctlOk 2, freebsd_sysconf = 8\<rparr>" 2]
    freebsd_sysctl_failure [of "\<lparr>FreeBSD_version = 1400000, kern_smp_cores = SysctlFail 1,
      kern_smp_threads_per_core = SysctlOk 2, freebsd_sysconf = 8\<rparr>" 1]
  by (simp add: ENOENT_def UTIL_countCores_posix_def sysconf_cores_def)

text \<open>
  Claim C6. On FreeBSD (a version that has the query), when the query for
  \<open>kern.smp.cores\<close> succeeds an uncached call returns the cores times the threads per
  core if the second query succeeds, and the cores as they are if it fails. The product
  is that of \<open>int\<close>: the integer product when it fits 32 bits.
\<close>

theorem freebsd_cores_times_threads:
  assumes "1300008 \<le> FreeBSD_version env" and "kern_smp_cores env = SysctlOk cores"
  shows "UTIL_countCores_freebsd env 0 =
     (case kern_smp_threads_per_core env of
        SysctlOk perCore \<Rightarrow> Return (cores * perCore) (cores * perCore)
      | SysctlFail e \<Rightarrow> Return cores cores) \<and>
     (\<forall>perCore. kern_smp_threads_per_core env = SysctlOk perCore \<and>
        - (2 ^ 31) \<le> sint cores * sint perCore \<and> sint cores * sint perCore < 2 ^ 31 \<longrightarrow>
        sint (retval (UTIL_countCores_freebsd env 0)) = sint cores * sint perCore)"
  using assms
  by (simp add: UTIL_countCores_freebsd_def freebsd_sysctl_def sint_mult_fits
      split: sysctl_reply.split)

theorem freebsd_cores_times_threads_witness:
  "UTIL_countCores_freebsd
     \<lparr>FreeBSD_version = 1400000, kern_smp_cores = SysctlOk 4,
      kern_smp_threads_per_core = SysctlOk 2, freebsd_sysconf = 1\<rparr> 0 = Return 8 8 \<and>
   UTIL_countCores_freebsd
     \<lparr>FreeBSD_version = 1400000, kern_smp_cores = SysctlOk 4,
      kern_smp_threads_per_core = SysctlFail 2, freebsd_sysconf = 1\<rparr> 0 = Return 4 4"
  using
    freebsd_cores_times_threads [of "\<lparr>FreeBSD_version = 1400000, kern_smp_cores = SysctlOk 4,
      kern_smp_threads_per_core = SysctlOk 2, freebsd_sysconf = 1\<rparr>" 4]
    freebsd_cores_times_threads [of "\<lparr>FreeBSD_version = 1400000, kern_smp_cores = SysctlOk 4,
      kern_smp_threads_per_core = SysctlFail 2, freebsd_sysconf = 1\<rparr>" 4]
  by simp

text \<open>
  Claim C8. On Apple platforms, when the query for \<open>hw.logicalcpu\<close> fails, an uncached
  call returns 1 (and caches it).
\<close>

theorem apple_sysctl_failure:
  "UTIL_countCores_apple (SysctlFail e) 0 = Return 1 1"
  by (simp add: UTIL_countCores_apple_def)

subsection \<open>The value returned and the cache\<close>

text \<open>
  Claim C1 (a defect of the code). The claim has every backend return at least 1 in
  every environment. The Windows body returns the sum of the walk as it is: when the
  topology the system reports holds no processor-core entry the call returns 0, while
  the block after \<open>failed:\<close> of the same function replaces a 0 by 1.
\<close>

theorem windows_returns_zero:
  "UTIL_countCores_windows
     \<lparr>GetProcAddress_glpi =
        Some (\<lambda>i. if i = 0 then Failure ERROR_INSUFFICIENT_BUFFER 32
                   else Success 32 [\<lparr>ProcessorMask = 1, Relationship = RelationNumaNode\<rparr>]),
      malloc_ok = (\<lambda>i. True), dwNumberOfProcessors = 4\<rparr> 0 = Some (Return 0 0)"
  by (simp add: UTIL_countCores_windows_def glpi_loop.simps topology_walk.simps sizeof_SLPI_def)

text \<open>
  What the code does guarantee: the block after \<open>failed:\<close> never returns 0, the
  \<open>sysconf\<close> method returns 1 for the error value \<open>-1\<close> and never returns \<open>-1\<close>, and
  the body for an unknown platform returns 1.
\<close>

lemma ucast_minus_1: "(ucast (- 1 :: c_long) :: c_int) = - 1"
  by (intro bit_word_eqI) (simp add: bit_simps)

theorem fallbacks_return_one:
  "retval (win_failed env) \<noteq> 0 \<and>
   sysconf_cores (- 1) = 1 \<and> sysconf_cores r \<noteq> - 1 \<and>
   UTIL_countCores_unknown = 1"
  by (simp add: win_failed_eq sysconf_cores_def UTIL_countCores_unknown_def Let_def ucast_minus_1)

text \<open>
  The other bodies have no floor either: a count of 0 reported by \<open>sysconf\<close> or by a
  query that succeeds is returned as it is.
\<close>

theorem reported_zero_returned:
  "UTIL_countCores_posix 0 0 = Return 0 0 \<and>
   UTIL_countCores_apple (SysctlOk 0) 0 = Return 0 0 \<and>
   UTIL_countCores_linux \<lparr>linux_sysconf = 0, proc_cpuinfo = None\<rparr> 0 = Return 0 0 \<and>
   UTIL_countCores_freebsd
     \<lparr>FreeBSD_version = 1400000, kern_smp_cores = SysctlOk 0,
      kern_smp_threads_per_core = SysctlOk 2, freebsd_sysconf = 8\<rparr> 0 = Return 0 0"
  by (simp add: UTIL_countCores_posix_def UTIL_countCores_apple_def UTIL_countCores_linux_def
      UTIL_countCores_freebsd_def freebsd_sysctl_def sysconf_cores_def)

text \<open>
  Claim C2 (the same defect as C1). The claim has two consecutive calls always return
  the same value. A call that returns 0 leaves 0 in the static variable, and 0 is also
  the mark of a count not computed yet: the next call runs the detection again and
  returns what the system reports then. Here the first call (no processor-core entry
  reported) returns 0, and the second, started from the cache the first one left and
  with one core reported, returns 1.
\<close>

theorem second_call_differs:
  "UTIL_countCores_windows
     \<lparr>GetProcAddress_glpi =
        Some (\<lambda>i. if i = 0 then Failure ERROR_INSUFFICIENT_BUFFER 32
                   else Success 32 [\<lparr>ProcessorMask = 1, Relationship = RelationNumaNode\<rparr>]),
      malloc_ok = (\<lambda>i. True), dwNumberOfProcessors = 4\<rparr> 0 = Some (Return 0 0) \<and>
   UTIL_countCores_windows
     \<lparr>GetProcAddress_glpi =
        Some (\<lambda>i. if i = 0 then Failure ERROR_INSUFFICIENT_BUFFER 32
                   else Success 32 [\<lparr>ProcessorMask = 1, Relationship = RelationProcessorCore\<rparr>]),
      malloc_ok = (\<lambda>i. True), dwNumberOfProcessors = 4\<rparr> 0 = Some (Return 1 1)"
  by (simp add: UTIL_countCores_windows_def glpi_loop.simps topology_walk.simps sizeof_SLPI_def
      CountSetBits_popcount popcount_def upt_rec bit_numeral_rec)

text \<open>
  The memoization itself holds: a call that finds the static variable non-zero returns
  it and leaves it, whatever the system would answer.
\<close>

theorem cached_value_returned:
  assumes "numCores \<noteq> 0"
  shows "UTIL_countCores_windows wenv numCores = Some (Return numCores numCores) \<and>
         UTIL_countCores_apple hw_logicalcpu numCores = Return numCores numCores \<and>
         UTIL_countCores_linux lenv numCores = Return numCores numCores \<and>
         UTIL_countCores_freebsd fenv numCores = Return numCores numCores \<and>
         UTIL_countCores_posix sysconf_onln numCores = Return numCores numCores"
  using assms
  by (simp add: UTIL_countCores_windows_def UTIL_countCores_apple_def UTIL_countCores_linux_def
      UTIL_countCores_freebsd_def UTIL_countCores_posix_def)

theorem cached_value_returned_witness:
  "UTIL_countCores_windows
     \<lparr>GetProcAddress_glpi = None, malloc_ok = (\<lambda>i. True), dwNumberOfProcessors = 2\<rparr> 4
     = Some (Return 4 4) \<and>
   UTIL_countCores_apple (SysctlOk 2) 4 = Return 4 4 \<and>
   UTIL_countCores_linux \<lparr>linux_sysconf = 2, proc_cpuinfo = None\<rparr> 4 = Return 4 4 \<and>
   UTIL_countCores_freebsd
     \<lparr>FreeBSD_version = 1400000, kern_smp_cores = SysctlOk 2,
      kern_smp_threads_per_core = SysctlOk 1, freebsd_sysconf = 2\<rparr> 4 = Return 4 4 \<and>
   UTIL_countCores_posix 2 4 = Return 4 4"
  using cached_value_returned [of 4] by simp

text \<open>
  Every call caches the value it returns, so a call that returns a non-zero value is
  followed by calls that return the same value, whatever the system answers by then.
\<close>

lemma windows_caches_result:
  "UTIL_countCores_windows env c = Some (Return v c') \<Longrightarrow> c' = v"
  by (auto simp: UTIL_countCores_windows_def win_failed_eq
      split: if_splits option.splits glpi_loop_result.splits)

lemma apple_caches_result:
  "UTIL_countCores_apple r c = Return v c' \<Longrightarrow> c' = v"
  by (auto simp: UTIL_countCores_apple_def split: if_splits sysctl_reply.splits)

lemma linux_caches_result:
  "UTIL_countCores_linux env c = Return v c' \<Longrightarrow> c' = v"
  by (auto simp: UTIL_countCores_linux_def Let_def split: if_splits option.splits)

lemma posix_caches_result:
  "UTIL_countCores_posix r c = Return v c' \<Longrightarrow> c' = v"
  by (auto simp: UTIL_countCores_posix_def Let_def split: if_splits)

lemma freebsd_caches_result:
  "UTIL_countCores_freebsd env c = Return v c' \<Longrightarrow> c' = v"
  by (auto simp: UTIL_countCores_freebsd_def freebsd_sysctl_def Let_def
      split: if_splits option.splits sysctl_reply.splits)

theorem nonzero_result_repeats:
  assumes "v \<noteq> 0"
  shows "(UTIL_countCores_windows wenv c = Some (Return v c') \<longrightarrow>
            UTIL_countCores_windows wenv' c' = Some (Return v v)) \<and>
         (UTIL_countCores_apple a c = Return v c' \<longrightarrow>
            UTIL_countCores_apple a' c' = Return v v) \<and>
         (UTIL_countCores_linux lenv c = Return v c' \<longrightarrow>
            UTIL_countCores_linux lenv' c' = Return v v) \<and>
         (UTIL_countCores_freebsd fenv c = Return v c' \<longrightarrow>
            UTIL_countCores_freebsd fenv' c' = Return v v) \<and>
         (UTIL_countCores_posix r c = Return v c' \<longrightarrow>
            UTIL_countCores_posix r' c' = Return v v)"
proof (intro conjI impI)
  assume "UTIL_countCores_windows wenv c = Some (Return v c')"
  then have "c' = v" by (rule windows_caches_result)
  with assms show "UTIL_countCores_windows wenv' c' = Some (Return v v)"
    by (simp add: UTIL_countCores_windows_def)
next
  assume "UTIL_countCores_apple a c = Return v c'"
  then have "c' = v" by (rule apple_caches_result)
  with assms show "UTIL_countCores_apple a' c' = Return v v"
    by (simp add: UTIL_countCores_apple_def)
next
  assume "UTIL_countCores_linux lenv c = Return v c'"
  then have "c' = v" by (rule linux_caches_result)
  with assms show "UTIL_countCores_linux lenv' c' = Return v v"
    by (simp add: UTIL_countCores_linux_def)
next
  assume "UTIL_countCores_freebsd fenv c = Return v c'"
  then have "c' = v" by (rule freebsd_caches_result)
  with assms show "UTIL_countCores_freebsd fenv' c' = Return v v"
    by (simp add: UTIL_countCores_freebsd_def)
next
  assume "UTIL_countCores_posix r c = Return v c'"
  then have "c' = v" by (rule posix_caches_result)
  with assms show "UTIL_countCores_posix r' c' = Return v v"
    by (simp add: UTIL_countCores_posix_def)
qed

theorem nonzero_result_repeats_witness:
  "UTIL_countCores_apple (SysctlOk 8) 0 = Return 8 8 \<and>
   UTIL_countCores_apple (SysctlOk 2) 8 = Return 8 8 \<and>
   UTIL_countCores_posix 8 0 = Return 8 8 \<and>
   UTIL_countCores_posix 2 8 = Return 8 8"
proof -
  have first: "UTIL_countCores_apple (SysctlOk 8) 0 = Return 8 8"
    and first': "UTIL_countCores_posix 8 0 = Return 8 8"
    by (simp_all add: UTIL_countCores_apple_def UTIL_countCores_posix_def sysconf_cores_def)
  from nonzero_result_repeats [of 8 _ 0 8 _ "SysctlOk 8" "SysctlOk 2" _ _ _ _ 8 2] first first'
  show ?thesis
    by simp
qed

subsection \<open>The other ends of the Windows retry loop\<close>

text \<open>
  The retry loop has no bound: while the system keeps answering "insufficient buffer"
  and the allocations succeed, the call does not return.
\<close>

lemma glpi_loop_never_done:
  assumes "glpi_loop glpi mallocs i buffer returnLength = Some res"
  shows "\<not> (\<forall>j. \<exists>rl. glpi j = Failure ERROR_INSUFFICIENT_BUFFER rl \<and> mallocs j)"
proof (rule glpi_loop.raw_induct
    [where P = "\<lambda>g m i b r res. \<not> (\<forall>j. \<exists>rl. g j = Failure ERROR_INSUFFICIENT_BUFFER rl \<and> m j)",
      OF _ assms], goal_cases)
  case (1 loop g m i b r res)
  show ?case
  proof
    assume always: "\<forall>j. \<exists>rl. g j = Failure ERROR_INSUFFICIENT_BUFFER rl \<and> m j"
    then obtain rl where "g i = Failure ERROR_INSUFFICIENT_BUFFER rl" "m i"
      by blast
    with 1(2) have "loop g m (i + 1) (Some []) rl = Some res"
      by simp
    with 1(1) always show False
      by blast
  qed
qed

theorem windows_retries_forever:
  assumes "GetProcAddress_glpi env = Some glpi"
    and "\<forall>j. \<exists>rl. glpi j = Failure ERROR_INSUFFICIENT_BUFFER rl \<and> malloc_ok env j"
  shows "UTIL_countCores_windows env 0 = None"
proof -
  have "glpi_loop glpi (malloc_ok env) 0 None 0 = None"
    using glpi_loop_never_done [of glpi "malloc_ok env" 0 None 0] assms(2)
    by (cases "glpi_loop glpi (malloc_ok env) 0 None 0") auto
  with assms(1) show ?thesis
    by (simp add: UTIL_countCores_windows_def)
qed

theorem windows_retries_forever_witness:
  "UTIL_countCores_windows
     \<lparr>GetProcAddress_glpi = Some (\<lambda>i. Failure ERROR_INSUFFICIENT_BUFFER 32),
      malloc_ok = (\<lambda>i. True), dwNumberOfProcessors = 4\<rparr> 0 = None"
  using windows_retries_forever
    [of "\<lparr>GetProcAddress_glpi = Some (\<lambda>i. Failure ERROR_INSUFFICIENT_BUFFER 32),
      malloc_ok = (\<lambda>i. True), dwNumberOfProcessors = 4\<rparr>"
      "\<lambda>i. Failure ERROR_INSUFFICIENT_BUFFER 32"]
  by simp

text \<open>
  When an allocation of the retry loop fails, the process prints the diagnostic of
  \<open>perror("lz4")\<close> and exits with status 1.
\<close>

theorem windows_malloc_failure:
  assumes "GetProcAddress_glpi env = Some glpi"
    and "\<forall>j<n. \<exists>rl. glpi j = Failure ERROR_INSUFFICIENT_BUFFER rl \<and> malloc_ok env j"
    and "glpi n = Failure ERROR_INSUFFICIENT_BUFFER rl" and "\<not> malloc_ok env n"
  shows "UTIL_countCores_windows env 0 = Some (Exit 1 ''lz4'')"
proof -
  from glpi_loop_retry [of n glpi 0 "malloc_ok env" None 0] assms(2)
  obtain buffer' returnLength' where
    "glpi_loop glpi (malloc_ok env) 0 None 0 =
       glpi_loop glpi (malloc_ok env) n buffer' returnLength'"
    by auto
  also have "\<dots> = Some (LoopExit 1 ''lz4'')"
    using assms(3,4) by (subst glpi_loop.simps) simp
  finally show ?thesis
    using assms(1) by (simp add: UTIL_countCores_windows_def)
qed

theorem windows_malloc_failure_witness:
  "UTIL_countCores_windows
     \<lparr>GetProcAddress_glpi = Some (\<lambda>i. Failure ERROR_INSUFFICIENT_BUFFER 32),
      malloc_ok = (\<lambda>i. False), dwNumberOfProcessors = 4\<rparr> 0 = Some (Exit 1 ''lz4'')"
  using windows_malloc_failure
    [of "\<lparr>GetProcAddress_glpi = Some (\<lambda>i. Failure ERROR_INSUFFICIENT_BUFFER 32),
      malloc_ok = (\<lambda>i. False), dwNumberOfProcessors = 4\<rparr>"
      "\<lambda>i. Failure ERROR_INSUFFICIENT_BUFFER 32" 0 32]
  by simp

subsection \<open>FreeBSD before version 1300008\<close>

text \<open>
  On a FreeBSD older than 1300008 the queries are not compiled in: an uncached call
  returns what the generic \<open>sysconf\<close> backend returns.
\<close>

theorem freebsd_old_version:
  assumes "FreeBSD_version env < 1300008"
  shows "UTIL_countCores_freebsd env 0 = UTIL_countCores_posix (freebsd_sysconf env) 0"
  using assms by (simp add: UTIL_countCores_freebsd_def UTIL_countCores_posix_def)

theorem freebsd_old_version_witness:
  "UTIL_countCores_freebsd
     \<lparr>FreeBSD_version = 1200000, kern_smp_cores = SysctlOk 4,
      kern_smp_threads_per_core = SysctlOk 2, freebsd_sysconf = - 1\<rparr> 0 = Return 1 1"
  using freebsd_old_version
    [of "\<lparr>FreeBSD_version = 1200000, kern_smp_cores = SysctlOk 4,
      kern_smp_threads_per_core = SysctlOk 2, freebsd_sysconf = - 1\<rparr>"]
  by (simp add: UTIL_countCores_posix_def sysconf_cores_def ucast_minus_1)

end
